theory Spec2Isabelle
  imports Complex_Main "HOL-Library.Product_Lexorder"
begin

section \<open>Time values, time intervals and fragments\<close>

text \<open>
  \<open>aeneas.syncmap.fragmentlist\<close> imports \<open>TimeValue\<close>, \<open>TimeInterval\<close> and
  \<open>SyncMapFragment\<close> from sibling modules. A \<open>TimeValue\<close> is an exact decimal number:
  it is a rational here, so that comparison, addition and subtraction are exact.
\<close>

type_synonym TimeValue = rat

text \<open>
  A Python argument that is expected to be a \<open>TimeValue\<close> or \<open>None\<close>: \<open>POther\<close>
  stands for an object of any other class.
\<close>

datatype pyarg = PNone | PTime TimeValue | POther

fun isinstance_TimeValue :: "pyarg \<Rightarrow> bool" where
  "isinstance_TimeValue (PTime t) = True"
| "isinstance_TimeValue PNone = False"
| "isinstance_TimeValue POther = False"

fun time_of :: "pyarg \<Rightarrow> TimeValue option" where
  "time_of (PTime t) = Some t"
| "time_of PNone = None"
| "time_of POther = None"

text \<open>Exceptions carry the message of the \<open>raise\<close> statement.\<close>

datatype error = TypeError string | ValueError string | IndexError string

record TimeInterval =
  ibegin :: TimeValue
  iend :: TimeValue

record 'p SyncMapFragment =
  interval :: TimeInterval
  payload :: 'p

text \<open>
  Modelled from the spec: the attributes \<open>length\<close> and \<open>has_zero_length\<close> of
  \<open>TimeInterval\<close>, which live in \<open>aeneas.exacttiming\<close>: \<open>length = end - begin\<close>,
  and an interval is degenerate when its length is zero.
\<close>

definition length_iv :: "TimeInterval \<Rightarrow> TimeValue" where
  "length_iv a = iend a - ibegin a"

definition has_zero_length :: "TimeInterval \<Rightarrow> bool" where
  "has_zero_length a = (length_iv a = 0)"

text \<open>
  Modelled from the spec: \<open>TimeInterval.is_adjacent_before\<close> (in \<open>aeneas.exacttiming\<close>),
  true iff \<open>self.end == other.begin\<close> and the two intervals have no overlap otherwise,
  that is no common stretch of positive length.
\<close>

definition is_adjacent_before :: "TimeInterval \<Rightarrow> TimeInterval \<Rightarrow> bool" where
  "is_adjacent_before a b =
     (iend a = ibegin b \<and> \<not> (max (ibegin a) (ibegin b) < min (iend a) (iend b)))"

text \<open>
  Well-formedness of a time interval, which the constructor of \<open>TimeInterval\<close> establishes.
  The list writes interval fields directly, so it is a predicate, not a type.
\<close>

definition valid_interval :: "TimeInterval \<Rightarrow> bool" where
  "valid_interval a = (ibegin a \<le> iend a)"

subsection \<open>Relative position of two intervals\<close>

text \<open>
  The closed enumeration of relative positions. The fifteen constants that the list
  allows are named in the source; the others complete the cross-classification by the
  shape of the two operands (\<open>P\<close> a point, \<open>I\<close> an interval of positive length) and by
  where the begin and the end of the other interval fall: \<open>L\<close> less, \<open>C\<close> coincident,
  \<open>B\<close> at the begin, \<open>I\<close> inside, \<open>E\<close> at the end, \<open>G\<close> greater.
\<close>

datatype RelativePosition =
    RELATIVE_POSITION_PP_L | RELATIVE_POSITION_PP_C | RELATIVE_POSITION_PP_G
  | RELATIVE_POSITION_PI_LL | RELATIVE_POSITION_PI_LC | RELATIVE_POSITION_PI_LG
  | RELATIVE_POSITION_PI_CG | RELATIVE_POSITION_PI_GG
  | RELATIVE_POSITION_IP_L | RELATIVE_POSITION_IP_B | RELATIVE_POSITION_IP_I
  | RELATIVE_POSITION_IP_E | RELATIVE_POSITION_IP_G
  | RELATIVE_POSITION_II_LL | RELATIVE_POSITION_II_LB | RELATIVE_POSITION_II_LI
  | RELATIVE_POSITION_II_LE | RELATIVE_POSITION_II_LG | RELATIVE_POSITION_II_BI
  | RELATIVE_POSITION_II_BE | RELATIVE_POSITION_II_BG | RELATIVE_POSITION_II_II
  | RELATIVE_POSITION_II_IE | RELATIVE_POSITION_II_IG | RELATIVE_POSITION_II_EG
  | RELATIVE_POSITION_II_GG

text \<open>
  Modelled from the spec: \<open>TimeInterval.relative_position_of\<close> (in
  \<open>aeneas.exacttiming\<close>), the position of \<open>other\<close> relative to \<open>self\<close>. Each operand
  is first classified as a point or an interval, then the endpoints are compared.
\<close>

definition relative_position_of :: "TimeInterval \<Rightarrow> TimeInterval \<Rightarrow> RelativePosition" where
  "relative_position_of self other =
     (if has_zero_length self then
        (if has_zero_length other then
           (if ibegin other < ibegin self then RELATIVE_POSITION_PP_L
            else if ibegin other = ibegin self then RELATIVE_POSITION_PP_C
            else RELATIVE_POSITION_PP_G)
         else
           (if iend other < ibegin self then RELATIVE_POSITION_PI_LL
            else if iend other = ibegin self then RELATIVE_POSITION_PI_LC
            else if ibegin other < ibegin self then RELATIVE_POSITION_PI_LG
            else if ibegin other = ibegin self then RELATIVE_POSITION_PI_CG
            else RELATIVE_POSITION_PI_GG))
      else
        (if has_zero_length other then
           (if ibegin other < ibegin self then RELATIVE_POSITION_IP_L
            else if ibegin other = ibegin self then RELATIVE_POSITION_IP_B
            else if ibegin other < iend self then RELATIVE_POSITION_IP_I
            else if ibegin other = iend self then RELATIVE_POSITION_IP_E
            else RELATIVE_POSITION_IP_G)
         else
           (if iend other < ibegin self then RELATIVE_POSITION_II_LL
            else if iend other = ibegin self then RELATIVE_POSITION_II_LB
            else if iend other < iend self then
              (if ibegin other < ibegin self then RELATIVE_POSITION_II_LI
               else if ibegin other = ibegin self then RELATIVE_POSITION_II_BI
               else RELATIVE_POSITION_II_II)
            else if iend other = iend self then
              (if ibegin other < ibegin self then RELATIVE_POSITION_II_LE
               else if ibegin other = ibegin self then RELATIVE_POSITION_II_BE
               else RELATIVE_POSITION_II_IE)
            else
              (if ibegin other < ibegin self then RELATIVE_POSITION_II_LG
               else if ibegin other = ibegin self then RELATIVE_POSITION_II_BG
               else if ibegin other < iend self then RELATIVE_POSITION_II_IG
               else if ibegin other = iend self then RELATIVE_POSITION_II_EG
               else RELATIVE_POSITION_II_GG))))"

text \<open>\<open>SyncMapFragmentList.ALLOWED_POSITIONS\<close>, as the source lists it.\<close>

definition ALLOWED_POSITIONS :: "RelativePosition list" where
  "ALLOWED_POSITIONS =
     [RELATIVE_POSITION_PP_L, RELATIVE_POSITION_PP_C, RELATIVE_POSITION_PP_G,
      RELATIVE_POSITION_PI_LL, RELATIVE_POSITION_PI_LC, RELATIVE_POSITION_PI_CG,
      RELATIVE_POSITION_PI_GG,
      RELATIVE_POSITION_IP_L, RELATIVE_POSITION_IP_B, RELATIVE_POSITION_IP_E,
      RELATIVE_POSITION_IP_G,
      RELATIVE_POSITION_II_LL, RELATIVE_POSITION_II_LB, RELATIVE_POSITION_II_EG,
      RELATIVE_POSITION_II_GG]"

text \<open>
  Modelled from the spec: the comparison operators of \<open>SyncMapFragment\<close> (in
  \<open>aeneas.syncmap.fragment\<close>). Fragments are ordered by their interval, by begin and
  then by end for ties; the payload takes no part.
\<close>

definition frag_key :: "'p SyncMapFragment \<Rightarrow> TimeValue \<times> TimeValue" where
  "frag_key f = (ibegin (interval f), iend (interval f))"

definition frag_lt :: "'p SyncMapFragment \<Rightarrow> 'p SyncMapFragment \<Rightarrow> bool" where
  "frag_lt f g = (frag_key f < frag_key g)"

section \<open>The fragment list\<close>

text \<open>
  The attributes of a \<open>SyncMapFragmentList\<close>: \<open>begin\<close> and \<open>end\<close> (\<open>None\<close> when
  unset), the private flag \<open>__sorted\<close> and the private list \<open>__fragments\<close>. Fragments
  are held by value: no fragment object is stored twice.
\<close>

record 'p SyncMapFragmentList =
  lbegin :: "TimeValue option"
  lend :: "TimeValue option"
  sorted_flag :: bool
  fragments :: "'p SyncMapFragment list"

text \<open>
  A method either returns, or raises an exception; in both cases the object is left in
  some state, which the outcome carries.
\<close>

datatype 'p outcome =
    Ok "'p SyncMapFragmentList"
  | Raise error "'p SyncMapFragmentList"

text \<open>\<open>__init__\<close>: nothing exists before the call, so an error leaves no object.\<close>

definition init :: "pyarg \<Rightarrow> pyarg \<Rightarrow> error + 'p SyncMapFragmentList" where
  "init begin_arg end_arg =
     (if begin_arg \<noteq> PNone \<and> \<not> isinstance_TimeValue begin_arg then
        Inl (TypeError ''begin is not an instance of TimeValue'')
      else if end_arg \<noteq> PNone \<and> \<not> isinstance_TimeValue end_arg then
        Inl (TypeError ''end is not an instance of TimeValue'')
      else
        (case time_of begin_arg of
           None \<Rightarrow>
             Inr \<lparr>lbegin = None, lend = time_of end_arg, sorted_flag = True, fragments = []\<rparr>
         | Some b \<Rightarrow>
             if b < 0 then Inl (ValueError ''begin is negative'')
             else
               (case time_of end_arg of
                  None \<Rightarrow>
                    Inr \<lparr>lbegin = Some b, lend = None, sorted_flag = True, fragments = []\<rparr>
                | Some e \<Rightarrow>
                    if b > e then Inl (ValueError ''begin is bigger than end'')
                    else
                      Inr \<lparr>lbegin = Some b, lend = Some e, sorted_flag = True,
                           fragments = []\<rparr>)))"

text \<open>\<open>__len__\<close>, \<open>__getitem__\<close> and \<open>__setitem__\<close>, with Python's negative indices.\<close>

definition len :: "'p SyncMapFragmentList \<Rightarrow> int" where
  "len self = int (length (fragments self))"

definition norm_index :: "'a list \<Rightarrow> int \<Rightarrow> nat option" where
  "norm_index xs i =
     (if 0 \<le> i \<and> i < int (length xs) then Some (nat i)
      else if i < 0 \<and> - int (length xs) \<le> i then Some (nat (int (length xs) + i))
      else None)"

definition getitem :: "'p SyncMapFragmentList \<Rightarrow> int \<Rightarrow> error + 'p SyncMapFragment" where
  "getitem self index =
     (case norm_index (fragments self) index of
        None \<Rightarrow> Inl (IndexError ''list index out of range'')
      | Some k \<Rightarrow> Inr (fragments self ! k))"

definition setitem :: "int \<Rightarrow> 'p SyncMapFragment \<Rightarrow> 'p SyncMapFragmentList \<Rightarrow> 'p outcome" where
  "setitem index v self =
     (case norm_index (fragments self) index of
        None \<Rightarrow> Raise (IndexError ''list assignment index out of range'') self
      | Some k \<Rightarrow> Ok (self\<lparr>fragments := (fragments self)[k := v]\<rparr>))"

text \<open>
  The argument of \<open>add\<close>: a fragment, a fragment whose \<open>interval\<close> attribute is not a
  \<open>TimeInterval\<close>, or an object that is not a \<open>SyncMapFragment\<close>.
\<close>

datatype 'p pyfragment =
    Fragment "'p SyncMapFragment"
  | FragmentWithoutInterval 'p
  | NotAFragment

definition check_boundaries ::
  "'p SyncMapFragmentList \<Rightarrow> 'p pyfragment \<Rightarrow> error + 'p SyncMapFragment" where
  "check_boundaries self fragment =
     (case fragment of
        NotAFragment \<Rightarrow> Inl (TypeError ''fragment is not an instance of SyncMapFragment'')
      | FragmentWithoutInterval p \<Rightarrow>
          Inl (TypeError ''interval is not an instance of TimeInterval'')
      | Fragment f \<Rightarrow>
          if (case lbegin self of None \<Rightarrow> False | Some b \<Rightarrow> ibegin (interval f) < b) then
            Inl (ValueError ''interval.begin is before self.begin'')
          else if (case lend self of None \<Rightarrow> False | Some e \<Rightarrow> iend (interval f) > e) then
            Inl (ValueError ''interval.end is after self.end'')
          else Inr f)"

text \<open>\<open>_check_overlap\<close>: the loop over the existing fragments, in stored order.\<close>

fun check_overlap :: "'p SyncMapFragment list \<Rightarrow> 'p SyncMapFragment \<Rightarrow> error option" where
  "check_overlap [] fragment = None"
| "check_overlap (existing_fragment # rest) fragment =
     (if relative_position_of (interval existing_fragment) (interval fragment)
           \<notin> set ALLOWED_POSITIONS
      then Some (ValueError ''interval overlaps another already present interval'')
      else check_overlap rest fragment)"

definition is_guaranteed_sorted :: "'p SyncMapFragmentList \<Rightarrow> bool" where
  "is_guaranteed_sorted self = sorted_flag self"

text \<open>
  The loop of \<open>sort\<close> over \<open>range(len(self) - 1)\<close>, comparing each fragment with its
  successor.
\<close>

fun check_adjacent :: "'p SyncMapFragment list \<Rightarrow> error option" where
  "check_adjacent (a # b # rest) =
     (if relative_position_of (interval a) (interval b) \<notin> set ALLOWED_POSITIONS
      then Some (ValueError
        ''The list contains two time intervals overlapping in a forbidden way'')
      else check_adjacent (b # rest))"
| "check_adjacent [a] = None"
| "check_adjacent [] = None"

text \<open>
  \<open>sort\<close>. Python's \<open>sorted\<close> is stable and compares with \<open><\<close> only; a stable sort by
  the key of the fragment order is the same function. The sorted list is stored before
  the adjacent pairs are checked.
\<close>

definition sort_op :: "'p SyncMapFragmentList \<Rightarrow> 'p outcome" where
  "sort_op self =
     (if \<not> is_guaranteed_sorted self then
        (let self1 = self\<lparr>fragments := sort_key frag_key (fragments self)\<rparr> in
           case check_adjacent (fragments self1) of
             Some e \<Rightarrow> Raise e self1
           | None \<Rightarrow> Ok (self1\<lparr>sorted_flag := True\<rparr>))
      else Ok self)"

text \<open>
  \<open>bisect.insort\<close> of the standard library: \<open>bisect_right\<close> by binary search with
  \<open>x < a[mid]\<close>, then \<open>a.insert(lo, x)\<close>. It is called with \<open>lo = 0\<close> and
  \<open>hi = len(a)\<close>, so every \<open>a[mid]\<close> is in range.
\<close>

function bisect_right ::
  "'p SyncMapFragment list \<Rightarrow> 'p SyncMapFragment \<Rightarrow> nat \<Rightarrow> nat \<Rightarrow> nat" where
  "bisect_right a x lo hi =
     (if lo < hi then
        (if frag_lt x (a ! ((lo + hi) div 2)) then bisect_right a x lo ((lo + hi) div 2)
         else bisect_right a x ((lo + hi) div 2 + 1) hi)
      else lo)"
  by pat_completeness auto
termination
proof (relation "measure (\<lambda>(a, x, lo, hi). hi - lo)")
  show "wf (measure (\<lambda>(a, x, lo, hi). hi - lo))" by simp
next
  fix a :: "'p SyncMapFragment list" and x :: "'p SyncMapFragment" and lo hi :: nat
  assume "lo < hi"
  then have "(lo + hi) div 2 < hi" by linarith
  then show "((a, x, lo, (lo + hi) div 2), a, x, lo, hi) \<in> measure (\<lambda>(a, x, lo, hi). hi - lo)"
    using \<open>lo < hi\<close> by simp
next
  fix a :: "'p SyncMapFragment list" and x :: "'p SyncMapFragment" and lo hi :: nat
  assume "lo < hi"
  then have "lo \<le> (lo + hi) div 2" by linarith
  then show "((a, x, (lo + hi) div 2 + 1, hi), a, x, lo, hi) \<in> measure (\<lambda>(a, x, lo, hi). hi - lo)"
    using \<open>lo < hi\<close> by simp
qed

declare bisect_right.simps [simp del]

definition insort_right :: "'p SyncMapFragment list \<Rightarrow> 'p SyncMapFragment \<Rightarrow> 'p SyncMapFragment list" where
  "insort_right a x = (let lo = bisect_right a x 0 (length a) in take lo a @ x # drop lo a)"

text \<open>\<open>add\<close>: the checks come first, the list is written last.\<close>

definition add :: "'p pyfragment \<Rightarrow> bool \<Rightarrow> 'p SyncMapFragmentList \<Rightarrow> 'p outcome" where
  "add fragment sort_arg self =
     (case check_boundaries self fragment of
        Inl e \<Rightarrow> Raise e self
      | Inr f \<Rightarrow>
          if sort_arg then
            (if \<not> is_guaranteed_sorted self then
               Raise (ValueError
                 ''Unable to add with sort=True if the list is not guaranteed sorted'') self
             else
               (case check_overlap (fragments self) f of
                  Some e \<Rightarrow> Raise e self
                | None \<Rightarrow> Ok (self\<lparr>fragments := insort_right (fragments self) f\<rparr>)))
          else Ok (self\<lparr>fragments := fragments self @ [f], sorted_flag := False\<rparr>))"

section \<open>Moving a boundary, offsetting, repairing zero-length fragments\<close>

text \<open>
  \<open>move_end\<close> and \<open>fix_zero_length_intervals\<close> compare a time value with \<open>self.begin\<close>
  or \<open>self.end\<close> without testing for \<open>None\<close> first. The module is written for
  Python 2 and Python 3 (it imports from \<open>__future__\<close>), which differ there: Python 2
  orders \<open>None\<close> below every other object, Python 3 raises \<open>TypeError\<close>.
\<close>

datatype pyver = Python2 | Python3

fun lt_bound :: "pyver \<Rightarrow> TimeValue \<Rightarrow> TimeValue option \<Rightarrow> error + bool" where
  "lt_bound ver x (Some b) = Inr (x < b)"
| "lt_bound Python2 x None = Inr False"
| "lt_bound Python3 x None = Inl (TypeError ''unorderable types'')"

fun gt_bound :: "pyver \<Rightarrow> TimeValue \<Rightarrow> TimeValue option \<Rightarrow> error + bool" where
  "gt_bound ver x (Some b) = Inr (x > b)"
| "gt_bound Python2 x None = Inr True"
| "gt_bound Python3 x None = Inl (TypeError ''unorderable types'')"

fun le_bound :: "pyver \<Rightarrow> TimeValue \<Rightarrow> TimeValue option \<Rightarrow> error + bool" where
  "le_bound ver x (Some b) = Inr (x \<le> b)"
| "le_bound Python2 x None = Inr False"
| "le_bound Python3 x None = Inl (TypeError ''unorderable types'')"

text \<open>
  \<open>move_end\<close>. The conditions are evaluated left to right with the short circuit of
  \<open>or\<close>. \<open>next_fragment.end\<close> is the end of the fragment's interval. The two
  assignments write the \<open>end\<close> of one interval and the \<open>begin\<close> of the next.
\<close>

definition move_end :: "pyver \<Rightarrow> int \<Rightarrow> TimeValue \<Rightarrow> 'p SyncMapFragmentList \<Rightarrow> 'p outcome" where
  "move_end ver index v self =
     (case lt_bound ver v (lbegin self) of
        Inl e \<Rightarrow> Raise e self
      | Inr is_below \<Rightarrow>
          if is_below then Ok self
          else
            (case gt_bound ver v (lend self) of
               Inl e \<Rightarrow> Raise e self
             | Inr is_above \<Rightarrow>
                 if is_above \<or> index < 0 \<or> index + 1 \<ge> len self then Ok self
                 else
                   (let i = nat index;
                        current_fragment = fragments self ! i;
                        next_fragment = fragments self ! (i + 1)
                    in if v > iend (interval next_fragment)
                          \<or> \<not> is_adjacent_before (interval current_fragment)
                                (interval next_fragment)
                       then Ok self
                       else Ok (self\<lparr>fragments := (fragments self)
                         [i := current_fragment
                            \<lparr>interval := (interval current_fragment)\<lparr>iend := v\<rparr>\<rparr>,
                          i + 1 := next_fragment
                            \<lparr>interval := (interval next_fragment)\<lparr>ibegin := v\<rparr>\<rparr>]\<rparr>))))"

text \<open>
  Modelled from the spec: \<open>TimeInterval.offset\<close> (in \<open>aeneas.exacttiming\<close>). It fails
  with \<open>TypeError\<close> unless the offset is a \<open>TimeValue\<close>; otherwise both endpoints move
  by the offset, are kept from becoming negative, and are clamped between the lower and
  the upper bound where these are set.
\<close>

definition clamp_time :: "TimeValue option \<Rightarrow> TimeValue option \<Rightarrow> TimeValue \<Rightarrow> TimeValue" where
  "clamp_time lo hi t =
     (let t1 = max t 0;
          t2 = (case lo of None \<Rightarrow> t1 | Some b \<Rightarrow> max t1 b)
      in (case hi of None \<Rightarrow> t2 | Some e \<Rightarrow> min t2 e))"

definition offset_iv ::
  "pyarg \<Rightarrow> TimeValue option \<Rightarrow> TimeValue option \<Rightarrow> TimeInterval \<Rightarrow> error + TimeInterval" where
  "offset_iv off min_begin_value max_end_value a =
     (case off of
        PTime d \<Rightarrow>
          Inr \<lparr>ibegin = clamp_time min_begin_value max_end_value (ibegin a + d),
               iend = clamp_time min_begin_value max_end_value (iend a + d)\<rparr>
      | PNone \<Rightarrow> Inl (TypeError ''offset is not an instance of TimeValue'')
      | POther \<Rightarrow> Inl (TypeError ''offset is not an instance of TimeValue''))"

text \<open>
  \<open>offset\<close>: the loop over the fragments. A fragment reached before an exception keeps
  its new interval.
\<close>

fun offset_loop ::
  "pyarg \<Rightarrow> TimeValue option \<Rightarrow> TimeValue option \<Rightarrow> 'p SyncMapFragment list
     \<Rightarrow> error option \<times> 'p SyncMapFragment list" where
  "offset_loop off lo hi [] = (None, [])"
| "offset_loop off lo hi (fragment # rest) =
     (case offset_iv off lo hi (interval fragment) of
        Inl e \<Rightarrow> (Some e, fragment # rest)
      | Inr a \<Rightarrow>
          (case offset_loop off lo hi rest of
             (r, rest') \<Rightarrow> (r, fragment\<lparr>interval := a\<rparr> # rest')))"

definition offset :: "pyarg \<Rightarrow> 'p SyncMapFragmentList \<Rightarrow> 'p outcome" where
  "offset off self =
     (case offset_loop off (lbegin self) (lend self) (fragments self) of
        (None, fs) \<Rightarrow> Ok (self\<lparr>fragments := fs\<rparr>)
      | (Some e, fs) \<Rightarrow> Raise e (self\<lparr>fragments := fs\<rparr>))"

subsection \<open>Zero-length repair\<close>

text \<open>
  Modelled from the spec: \<open>TimeInterval.shrink\<close> moves \<open>begin\<close> forward by the amount,
  \<open>TimeInterval.enlarge\<close> moves \<open>begin\<close> backward by the amount (both in
  \<open>aeneas.exacttiming\<close>).
\<close>

definition shrink :: "TimeValue \<Rightarrow> TimeInterval \<Rightarrow> TimeInterval" where
  "shrink quantity a = a\<lparr>ibegin := ibegin a + quantity\<rparr>"

definition enlarge :: "TimeValue \<Rightarrow> TimeInterval \<Rightarrow> TimeInterval" where
  "enlarge quantity a = a\<lparr>ibegin := ibegin a - quantity\<rparr>"

text \<open>
  Modelled from the spec: \<open>TimeInterval.move_end_at\<close> (in \<open>aeneas.exacttiming\<close>). The
  repair replays a \<open>MOVE\<close> entry with \<open>move_end_at\<close> alone and describes the fragment
  as shifted, not enlarged, with the chain left contiguous: the interval is moved as a
  whole so that it ends at the point, and it keeps its length.
\<close>

definition move_end_at :: "TimeValue \<Rightarrow> TimeInterval \<Rightarrow> TimeInterval" where
  "move_end_at point a = \<lparr>ibegin = point - length_iv a, iend = point\<rparr>"

text \<open>
  A pending move \<open>(index, "ENLARGE", offset)\<close> or \<open>(index, "MOVE", None)\<close>: the move
  type carries the amount.
\<close>

datatype move = ENLARGE TimeValue | MOVE

text \<open>
  The inner \<open>while\<close> loop of \<open>fix_zero_length_intervals\<close>: it returns the moves, the
  slack and \<open>j\<close>, or the \<open>IndexError\<close> of \<open>self[j]\<close>.
\<close>

function scan_chain ::
  "'p SyncMapFragmentList \<Rightarrow> TimeValue \<Rightarrow> int \<Rightarrow> (int \<times> move) list \<Rightarrow> TimeValue \<Rightarrow> int
     \<Rightarrow> error + ((int \<times> move) list \<times> TimeValue \<times> int)" where
  "scan_chain self off max_index moves slack j =
     (if j < max_index then
        (case getitem self j of
           Inl e \<Rightarrow> Inl e
         | Inr fj \<Rightarrow>
             if length_iv (interval fj) < slack then
               (if has_zero_length (interval fj) then
                  scan_chain self off max_index (moves @ [(j, ENLARGE off)]) (slack + off) (j + 1)
                else scan_chain self off max_index (moves @ [(j, MOVE)]) slack (j + 1))
             else Inr (moves, slack, j))
      else Inr (moves, slack, j))"
  by pat_completeness auto
termination
  by (relation "measure (\<lambda>(self, off, max_index, moves, slack, j). nat (max_index - j))") auto

declare scan_chain.simps [simp del]

text \<open>
  The feasibility test. \<open>None\<close> means not fixable; otherwise the list (with the donor
  shrunk, in the second branch) and \<open>current_time\<close>.
\<close>

definition find_donor ::
  "pyver \<Rightarrow> 'p SyncMapFragmentList \<Rightarrow> int \<Rightarrow> TimeValue \<Rightarrow> int
     \<Rightarrow> error + ('p SyncMapFragmentList \<times> TimeValue) option" where
  "find_donor ver self max_index slack j =
     (if j = max_index then
        (case getitem self (j - 1) of
           Inl e \<Rightarrow> Inl e
         | Inr last_fragment \<Rightarrow>
             (case le_bound ver (iend (interval last_fragment) + slack) (lend self) of
                Inl e \<Rightarrow> Inl e
              | Inr fits \<Rightarrow>
                  if fits then Inr (Some (self, iend (interval last_fragment) + slack))
                  else Inr None))
      else if j < max_index then
        (case norm_index (fragments self) j of
           None \<Rightarrow> Inl (IndexError ''list index out of range'')
         | Some k \<Rightarrow>
             (let fj = fragments self ! k; a = shrink slack (interval fj)
              in Inr (Some (self\<lparr>fragments := (fragments self)[k := fj\<lparr>interval := a\<rparr>]\<rparr>,
                            ibegin a))))
      else Inr None)"

text \<open>
  The replay loop over \<open>moves[::-1]\<close>; the first argument is the interval's
  \<open>move_end_at\<close>.
\<close>

fun replay ::
  "(TimeValue \<Rightarrow> TimeInterval \<Rightarrow> TimeInterval) \<Rightarrow> (int \<times> move) list \<Rightarrow> TimeValue
     \<Rightarrow> 'p SyncMapFragmentList \<Rightarrow> 'p outcome" where
  "replay mv [] current_time self = Ok self"
| "replay mv ((index, m) # rest) current_time self =
     (case norm_index (fragments self) index of
        None \<Rightarrow> Raise (IndexError ''list index out of range'') self
      | Some k \<Rightarrow>
          (let f = fragments self ! k;
               a1 = mv current_time (interval f);
               a2 = (case m of ENLARGE move_amount \<Rightarrow> enlarge move_amount a1 | MOVE \<Rightarrow> a1)
           in replay mv rest (ibegin a2)
                (self\<lparr>fragments := (fragments self)[k := f\<lparr>interval := a2\<rparr>]\<rparr>)))"

text \<open>
  The body of the outer loop for a zero-length fragment at \<open>i\<close>: the list afterwards and
  \<open>j\<close>, or the exception with the list as it was left.
\<close>

definition fix_chain ::
  "pyver \<Rightarrow> (TimeValue \<Rightarrow> TimeInterval \<Rightarrow> TimeInterval) \<Rightarrow> TimeValue \<Rightarrow> int
     \<Rightarrow> 'p SyncMapFragmentList \<Rightarrow> int
     \<Rightarrow> (error \<times> 'p SyncMapFragmentList) + ('p SyncMapFragmentList \<times> int)" where
  "fix_chain ver mv off max_index self i =
     (case scan_chain self off max_index [(i, ENLARGE off)] off (i + 1) of
        Inl e \<Rightarrow> Inl (e, self)
      | Inr (moves, slack, j) \<Rightarrow>
          (case find_donor ver self max_index slack j of
             Inl e \<Rightarrow> Inl (e, self)
           | Inr None \<Rightarrow> Inr (self, j)
           | Inr (Some (self1, current_time)) \<Rightarrow>
               (case replay mv (rev moves) current_time self1 of
                  Raise e s \<Rightarrow> Inl (e, s)
                | Ok s \<Rightarrow> Inr (s, j))))"

lemma scan_chain_ge:
  "scan_chain self off max_index moves slack j = Inr (moves', slack', j') \<Longrightarrow> j \<le> j'"
proof (induction self off max_index moves slack j rule: scan_chain.induct)
  case (1 self off max_index moves slack j)
  note unfold = scan_chain.simps [of self off max_index moves slack j]
  show ?case
  proof (cases "j < max_index")
    case False
    with "1.prems" show ?thesis by (simp add: unfold)
  next
    case True
    show ?thesis
    proof (cases "getitem self j")
      case (Inl e)
      with True "1.prems" show ?thesis by (simp add: unfold)
    next
      case (Inr fj)
      show ?thesis
      proof (cases "length_iv (interval fj) < slack")
        case False
        with True Inr "1.prems" show ?thesis by (simp add: unfold)
      next
        case short: True
        show ?thesis
        proof (cases "has_zero_length (interval fj)")
          case True
          with \<open>j < max_index\<close> Inr short "1.prems"
          have "scan_chain self off max_index (moves @ [(j, ENLARGE off)]) (slack + off) (j + 1)
                  = Inr (moves', slack', j')"
            by (simp add: unfold)
          from "1.IH"(1)[OF \<open>j < max_index\<close> Inr short True this] show ?thesis by simp
        next
          case False
          with \<open>j < max_index\<close> Inr short "1.prems"
          have "scan_chain self off max_index (moves @ [(j, MOVE)]) slack (j + 1)
                  = Inr (moves', slack', j')"
            by (simp add: unfold)
          from "1.IH"(2)[OF \<open>j < max_index\<close> Inr short False this] show ?thesis by simp
        qed
      qed
    qed
  qed
qed

lemma fix_chain_gt: "fix_chain ver mv off max_index self i = Inr (s, j) \<Longrightarrow> i < j"
  by (auto simp: fix_chain_def split: sum.splits option.splits prod.splits outcome.splits
        dest: scan_chain_ge)

text \<open>The outer \<open>while\<close> loop: after a chain it resumes at \<open>j - 1 + 1\<close>.\<close>

function fix_loop ::
  "pyver \<Rightarrow> (TimeValue \<Rightarrow> TimeInterval \<Rightarrow> TimeInterval) \<Rightarrow> TimeValue \<Rightarrow> int
     \<Rightarrow> 'p SyncMapFragmentList \<Rightarrow> int \<Rightarrow> 'p outcome" where
  "fix_loop ver mv off max_index self i =
     (if i < max_index then
        (case getitem self i of
           Inl e \<Rightarrow> Raise e self
         | Inr fi \<Rightarrow>
             if has_zero_length (interval fi) then
               (case fix_chain ver mv off max_index self i of
                  Inl (e, s) \<Rightarrow> Raise e s
                | Inr (s, j) \<Rightarrow> fix_loop ver mv off max_index s (j - 1 + 1))
             else fix_loop ver mv off max_index self (i + 1))
      else Ok self)"
  by pat_completeness auto
termination
  by (relation "measure (\<lambda>(ver, mv, off, max_index, self, i). nat (max_index - i))")
     (auto dest: fix_chain_gt)

declare fix_loop.simps [simp del]

text \<open>
  \<open>fix_zero_length_intervals\<close>: \<open>min_index or 0\<close> and \<open>max_index or len(self)\<close> replace
  \<open>None\<close> and \<open>0\<close> by the default.
\<close>

definition fix_zero_length_intervals ::
  "pyver \<Rightarrow> (TimeValue \<Rightarrow> TimeInterval \<Rightarrow> TimeInterval) \<Rightarrow> TimeValue \<Rightarrow> int option
     \<Rightarrow> int option \<Rightarrow> 'p SyncMapFragmentList \<Rightarrow> 'p outcome" where
  "fix_zero_length_intervals ver mv off min_index max_index self =
     (let min_index1 = (case min_index of None \<Rightarrow> 0 | Some m \<Rightarrow> if m = 0 then 0 else m);
          max_index1 = (case max_index of None \<Rightarrow> len self
                        | Some m \<Rightarrow> if m = 0 then len self else m)
      in fix_loop ver mv off max_index1 self min_index1)"

section \<open>Order and allowed positions\<close>

text \<open>
  The two invariants of a sorted list: the fragments ascend in the fragment order, and
  the relative position of a fragment and its successor is an allowed one.
\<close>

definition ascending :: "'p SyncMapFragment list \<Rightarrow> bool" where
  "ascending fs = sorted (map frag_key fs)"

definition allowed :: "TimeInterval \<Rightarrow> TimeInterval \<Rightarrow> bool" where
  "allowed a b = (relative_position_of a b \<in> set ALLOWED_POSITIONS)"

text \<open>
  The second invariant, in both directions: the position of the successor relative to
  the fragment (as \<open>sort\<close> tests it), and the position of the fragment relative to its
  successor.
\<close>

definition adjacent_allowed :: "'p SyncMapFragment list \<Rightarrow> bool" where
  "adjacent_allowed fs =
     successively (\<lambda>a b. relative_position_of (interval a) (interval b)
        \<in> set ALLOWED_POSITIONS) fs"

definition adjacent_allowed_rev :: "'p SyncMapFragment list \<Rightarrow> bool" where
  "adjacent_allowed_rev fs =
     successively (\<lambda>a b. relative_position_of (interval b) (interval a)
        \<in> set ALLOWED_POSITIONS) fs"

text \<open>Every fragment of the list holds a well-formed interval.\<close>

definition valid_fragments :: "'p SyncMapFragment list \<Rightarrow> bool" where
  "valid_fragments fs = list_all (\<lambda>g. valid_interval (interval g)) fs"

lemma allowed_iff:
  "valid_interval a \<Longrightarrow> valid_interval b \<Longrightarrow>
     allowed a b \<longleftrightarrow> (iend a \<le> ibegin b \<or> iend b \<le> ibegin a)"
  unfolding allowed_def relative_position_of_def ALLOWED_POSITIONS_def has_zero_length_def
    length_iv_def valid_interval_def
  by (simp; linarith)

lemma allowed_sym:
  "valid_interval a \<Longrightarrow> valid_interval b \<Longrightarrow> allowed a b \<Longrightarrow> allowed b a"
  by (auto simp: allowed_iff)

lemma overlap_forbidden:
  "max (ibegin g) (ibegin f) < min (iend g) (iend f) \<Longrightarrow> \<not> allowed g f"
  unfolding allowed_def relative_position_of_def ALLOWED_POSITIONS_def has_zero_length_def
    length_iv_def
  by (simp; linarith)

lemma check_overlap_None:
  "check_overlap fs f = None \<longleftrightarrow> (\<forall>g \<in> set fs. allowed (interval g) (interval f))"
  by (induction fs) (auto simp: allowed_def)

lemma check_overlap_Some:
  "check_overlap fs f = Some e \<Longrightarrow>
     e = ValueError ''interval overlaps another already present interval''"
  by (induction fs) (auto split: if_splits)

lemma check_adjacent_None:
  "check_adjacent fs = None \<longleftrightarrow> successively (\<lambda>a b. allowed (interval a) (interval b)) fs"
  by (induction fs rule: check_adjacent.induct) (auto simp: allowed_def)

lemma bisect_right_correct:
  "lo \<le> hi \<Longrightarrow> hi \<le> length a \<Longrightarrow> sorted (map frag_key a) \<Longrightarrow>
   (\<forall>i<lo. frag_key (a ! i) \<le> frag_key x) \<Longrightarrow>
   (\<forall>i. hi \<le> i \<and> i < length a \<longrightarrow> frag_key x < frag_key (a ! i)) \<Longrightarrow>
   lo \<le> bisect_right a x lo hi \<and> bisect_right a x lo hi \<le> hi \<and>
   (\<forall>i<bisect_right a x lo hi. frag_key (a ! i) \<le> frag_key x) \<and>
   (\<forall>i. bisect_right a x lo hi \<le> i \<and> i < length a \<longrightarrow> frag_key x < frag_key (a ! i))"
proof (induction a x lo hi rule: bisect_right.induct)
  case (1 a x lo hi)
  let ?mid = "(lo + hi) div 2"
  note unfold = bisect_right.simps [of a x lo hi]
  show ?case
  proof (cases "lo < hi")
    case False
    then have eq: "bisect_right a x lo hi = lo" by (simp add: unfold)
    from False "1.prems"(1) have "lo = hi" by simp
    with "1.prems"(4,5) show ?thesis unfolding eq by simp
  next
    case True
    then have mid: "lo \<le> ?mid" "?mid < hi" by linarith+
    with "1.prems" have midlen: "?mid < length a" by simp
    have mono: "\<And>i j. i \<le> j \<Longrightarrow> j < length a \<Longrightarrow> frag_key (a ! i) \<le> frag_key (a ! j)"
      using "1.prems"(3) by (simp add: sorted_iff_nth_mono)
    show ?thesis
    proof (cases "frag_lt x (a ! ?mid)")
      case lt: True
      have up: "\<forall>i. ?mid \<le> i \<and> i < length a \<longrightarrow> frag_key x < frag_key (a ! i)"
      proof (intro allI impI)
        fix i assume "?mid \<le> i \<and> i < length a"
        then have "frag_key (a ! ?mid) \<le> frag_key (a ! i)" using mono by simp
        with lt show "frag_key x < frag_key (a ! i)" by (simp add: frag_lt_def)
      qed
      have bnd: "lo \<le> ?mid" "?mid \<le> length a" using mid midlen by simp_all
      have eq: "bisect_right a x lo hi = bisect_right a x lo ?mid"
        using True lt by (simp add: unfold)
      from "1.IH"(1)[OF True lt bnd "1.prems"(3) "1.prems"(4) up]
      show ?thesis unfolding eq using mid by auto
    next
      case ge: False
      have low: "\<forall>i<?mid + 1. frag_key (a ! i) \<le> frag_key x"
      proof (intro allI impI)
        fix i assume "i < ?mid + 1"
        then have "frag_key (a ! i) \<le> frag_key (a ! ?mid)" using mono midlen by simp
        with ge show "frag_key (a ! i) \<le> frag_key x" by (simp add: frag_lt_def)
      qed
      have bnd: "?mid + 1 \<le> hi" using mid by simp
      have eq: "bisect_right a x lo hi = bisect_right a x (?mid + 1) hi"
        using True ge by (simp add: unfold)
      from "1.IH"(2)[OF True ge bnd "1.prems"(2) "1.prems"(3) low "1.prems"(5)]
      show ?thesis unfolding eq using mid by auto
    qed
  qed
qed

lemma insort_ascending:
  assumes "ascending a"
  shows "ascending (insort_right a x)"
proof -
  let ?k = "bisect_right a x 0 (length a)"
  have srt: "sorted (map frag_key a)" using assms by (simp add: ascending_def)
  have k: "?k \<le> length a"
    "\<forall>i<?k. frag_key (a ! i) \<le> frag_key x"
    "\<forall>i. ?k \<le> i \<and> i < length a \<longrightarrow> frag_key x < frag_key (a ! i)"
  proof -
    have "\<forall>i<(0::nat). frag_key (a ! i) \<le> frag_key x" by simp
    moreover have "\<forall>i. length a \<le> i \<and> i < length a \<longrightarrow> frag_key x < frag_key (a ! i)"
      by auto
    ultimately have "0 \<le> ?k \<and> ?k \<le> length a \<and>
        (\<forall>i<?k. frag_key (a ! i) \<le> frag_key x) \<and>
        (\<forall>i. ?k \<le> i \<and> i < length a \<longrightarrow> frag_key x < frag_key (a ! i))"
      using srt by (intro bisect_right_correct) simp_all
    then show "?k \<le> length a"
      "\<forall>i<?k. frag_key (a ! i) \<le> frag_key x"
      "\<forall>i. ?k \<le> i \<and> i < length a \<longrightarrow> frag_key x < frag_key (a ! i)"
      by blast+
  qed
  have lower: "\<forall>y \<in> set (take ?k a). frag_key y \<le> frag_key x"
  proof
    fix y assume "y \<in> set (take ?k a)"
    then obtain i where "i < length (take ?k a)" "take ?k a ! i = y"
      by (auto simp: in_set_conv_nth)
    with k(1,2) show "frag_key y \<le> frag_key x" by auto
  qed
  have upper: "\<forall>y \<in> set (drop ?k a). frag_key x \<le> frag_key y"
  proof
    fix y assume "y \<in> set (drop ?k a)"
    then obtain i where i: "i < length (drop ?k a)" "drop ?k a ! i = y"
      by (auto simp: in_set_conv_nth)
    then have "?k + i < length a" "a ! (?k + i) = y" using k(1) by auto
    with k(3) have "frag_key x < frag_key y" by force
    then show "frag_key x \<le> frag_key y" by simp
  qed
  have st: "sorted (map frag_key (take ?k a))" "sorted (map frag_key (drop ?k a))"
    using srt by (simp_all add: sorted_wrt_take sorted_wrt_drop take_map [symmetric] drop_map [symmetric])
  have cross: "\<forall>y \<in> set (take ?k a). \<forall>z \<in> set (drop ?k a). frag_key y \<le> frag_key z"
    using lower upper by (meson order_trans)
  show ?thesis
    unfolding ascending_def insort_right_def Let_def
    using st lower upper cross by (simp add: sorted_append)
qed

lemma insort_successively:
  assumes "successively P a" and "\<forall>g \<in> set a. P g x \<and> P x g"
  shows "successively P (insort_right a x)"
proof -
  let ?k = "bisect_right a x 0 (length a)"
  have "successively P (take ?k a @ drop ?k a)" using assms(1) by simp
  from this [unfolded successively_append_iff]
  have parts: "successively P (take ?k a)" "successively P (drop ?k a)"
    by blast+
  have l: "take ?k a \<noteq> [] \<Longrightarrow> P (last (take ?k a)) x"
    using assms(2) by (meson in_set_takeD last_in_set)
  have r: "drop ?k a \<noteq> [] \<Longrightarrow> P x (hd (drop ?k a))"
    using assms(2) by (meson in_set_dropD hd_in_set)
  show ?thesis
    unfolding insort_right_def Let_def
    using parts l r by (auto simp: successively_append_iff successively_Cons)
qed

lemma adjacent_allowed_rev_iff:
  "valid_fragments fs \<Longrightarrow> adjacent_allowed_rev fs \<longleftrightarrow> adjacent_allowed fs"
proof (induction fs rule: induct_list012)
  case (3 x y xs)
  then show ?case
    using allowed_sym [of "interval x" "interval y"] allowed_sym [of "interval y" "interval x"]
    by (auto simp: adjacent_allowed_def adjacent_allowed_rev_def valid_fragments_def allowed_def)
qed (simp_all add: adjacent_allowed_def adjacent_allowed_rev_def)

lemma set_insort: "set (insort_right a x) = insert x (set a)"
proof -
  have "set (take k a) \<union> set (drop k a) = set a" for k
    by (metis append_take_drop_id set_append)
  then show ?thesis by (auto simp: insort_right_def Let_def)
qed

lemma offset_loop_time: "fst (offset_loop (PTime d) lo hi fs) = None"
  by (induction fs) (auto simp: offset_iv_def split: prod.splits)

lemma offset_loop_raise: "offset_loop off lo hi fs = (Some e, fs') \<Longrightarrow> fs' = fs"
proof (cases off)
  case (PTime d)
  assume "offset_loop off lo hi fs = (Some e, fs')"
  with offset_loop_time [of d lo hi fs] PTime show ?thesis by simp
next
  case PNone
  assume "offset_loop off lo hi fs = (Some e, fs')"
  with PNone show ?thesis by (cases fs) (auto simp: offset_iv_def)
next
  case POther
  assume "offset_loop off lo hi fs = (Some e, fs')"
  with POther show ?thesis by (cases fs) (auto simp: offset_iv_def)
qed

lemma add_raise: "add fragment sort_arg self = Raise e self' \<Longrightarrow> self' = self"
  by (auto simp: add_def split: sum.splits if_splits option.splits)

lemma offset_raise: "offset off self = Raise e self' \<Longrightarrow> self' = self"
  by (auto simp: offset_def split: prod.splits option.splits dest: offset_loop_raise)

lemma move_end_raise: "move_end ver index v self = Raise e self' \<Longrightarrow> self' = self"
  by (auto simp: move_end_def Let_def split: sum.splits if_splits)

lemma sort_raise:
  "sort_op self = Raise e self' \<Longrightarrow>
     self' = self\<lparr>fragments := sort_key frag_key (fragments self)\<rparr> \<and> \<not> sorted_flag self'
     \<and> e = ValueError ''The list contains two time intervals overlapping in a forbidden way''"
proof -
  have msg: "check_adjacent fs = Some e \<Longrightarrow>
      e = ValueError ''The list contains two time intervals overlapping in a forbidden way''"
    for fs :: "'a SyncMapFragment list"
    by (induction fs rule: check_adjacent.induct) (auto split: if_splits)
  assume "sort_op self = Raise e self'"
  then show ?thesis
    by (auto simp: sort_op_def Let_def is_guaranteed_sorted_def
          split: if_splits option.splits dest: msg)
qed

section \<open>Concrete fragments\<close>

text \<open>The fragment with interval \<open>[b, e)\<close> and a text as payload.\<close>

abbreviation frag :: "TimeValue \<Rightarrow> TimeValue \<Rightarrow> string \<Rightarrow> string SyncMapFragment" where
  "frag b e p \<equiv> \<lparr>interval = \<lparr>ibegin = b, iend = e\<rparr>, payload = p\<rparr>"

section \<open>Construction\<close>

text \<open>
  Claim C6. For time values with \<open>0 \<le> begin \<le> end\<close> the constructor succeeds and gives
  an empty list whose sorted flag is set. It fails with \<open>ValueError\<close> when
  \<open>begin > end\<close> (both set) or \<open>begin < 0\<close>, also with \<open>end\<close> unset, and with
  \<open>TypeError\<close> when \<open>begin\<close> or \<open>end\<close> is neither \<open>None\<close> nor a time value.
\<close>

theorem init_spec:
  "(0 \<le> b \<and> b \<le> e \<longrightarrow>
      (init (PTime b) (PTime e) :: error + 'p SyncMapFragmentList) =
        Inr \<lparr>lbegin = Some b, lend = Some e, sorted_flag = True, fragments = []\<rparr>)
   \<and> (x > y \<or> x < 0 \<longrightarrow>
      (\<exists>msg. (init (PTime x) (PTime y) :: error + 'p SyncMapFragmentList)
         = Inl (ValueError msg)))
   \<and> (z < 0 \<longrightarrow>
      (init (PTime z) PNone :: error + 'p SyncMapFragmentList)
        = Inl (ValueError ''begin is negative''))
   \<and> (begin_arg = POther \<or> end_arg = POther \<longrightarrow>
      (\<exists>msg. (init begin_arg end_arg :: error + 'p SyncMapFragmentList)
         = Inl (TypeError msg)))"
  by (cases begin_arg; cases end_arg) (auto simp: init_def)

theorem init_spec_witness:
  "(0::rat) \<le> 0 \<and> (0::rat) \<le> 2
   \<and> (init (PTime 0) (PTime 2) :: error + string SyncMapFragmentList) =
        Inr \<lparr>lbegin = Some 0, lend = Some 2, sorted_flag = True, fragments = []\<rparr>
   \<and> (3::rat) > 1
   \<and> (\<exists>msg. (init (PTime 3) (PTime 1) :: error + string SyncMapFragmentList)
         = Inl (ValueError msg))
   \<and> (-1::rat) < 0
   \<and> (init (PTime (-1)) PNone :: error + string SyncMapFragmentList)
        = Inl (ValueError ''begin is negative'')
   \<and> (\<exists>msg. (init POther PNone :: error + string SyncMapFragmentList)
         = Inl (TypeError msg))"
  using init_spec [where 'p = string and b = 0 and e = 2 and x = 3 and y = 1 and z = "-1"
      and begin_arg = POther and end_arg = PNone] by simp

section \<open>Sorting twice\<close>

text \<open>
  Claim C9. When a call of \<open>sort\<close> returns, a second call returns too and leaves the
  list as the first call left it, and the list is guaranteed sorted after both.
\<close>

theorem sort_idempotent:
  "sort_op self = Ok self1 \<Longrightarrow> sort_op self1 = Ok self1 \<and> is_guaranteed_sorted self1"
  by (auto simp: sort_op_def is_guaranteed_sorted_def Let_def split: if_splits option.splits)

lemma sort_example:
  "sort_op \<lparr>lbegin = Some 0, lend = None, sorted_flag = False,
            fragments = [frag 2 4 ''b'', frag 0 2 ''a'']\<rparr>
   = Ok \<lparr>lbegin = Some 0, lend = None, sorted_flag = True,
            fragments = [frag 0 2 ''a'', frag 2 4 ''b'']\<rparr>"
  by (simp add: sort_op_def is_guaranteed_sorted_def Let_def frag_key_def
      relative_position_of_def has_zero_length_def length_iv_def ALLOWED_POSITIONS_def)

theorem sort_idempotent_witness:
  "sort_op \<lparr>lbegin = Some 0, lend = None, sorted_flag = False,
            fragments = [frag 2 4 ''b'', frag 0 2 ''a'']\<rparr>
   = Ok \<lparr>lbegin = Some 0, lend = None, sorted_flag = True,
            fragments = [frag 0 2 ''a'', frag 2 4 ''b'']\<rparr>
   \<and> sort_op \<lparr>lbegin = Some 0, lend = None, sorted_flag = True,
            fragments = [frag 0 2 ''a'', frag 2 4 ''b'']\<rparr>
   = Ok \<lparr>lbegin = Some 0, lend = None, sorted_flag = True,
            fragments = [frag 0 2 ''a'', frag 2 4 ''b'']\<rparr>
   \<and> is_guaranteed_sorted \<lparr>lbegin = Some 0, lend = None, sorted_flag = True,
            fragments = [frag 0 2 ''a'', frag 2 4 ''b'']\<rparr>"
  using sort_idempotent [OF sort_example] sort_example by simp

section \<open>Adding without sorting\<close>

text \<open>
  Claim C7, as stated: for every list and every fragment, \<open>add(f, sort=False)\<close> appends
  the fragment. It does not: the boundary check comes first, and a fragment that ends
  after the end of the list is refused.
\<close>

theorem add_unsorted_out_of_bounds_counterexample:
  "add (Fragment (frag 1 3 ''b'')) False
     \<lparr>lbegin = Some 0, lend = Some 2, sorted_flag = True, fragments = []\<rparr>
   = Raise (ValueError ''interval.end is after self.end'')
       \<lparr>lbegin = Some 0, lend = Some 2, sorted_flag = True, fragments = []\<rparr>"
  by (simp add: add_def check_boundaries_def)

text \<open>
  Claim C7, amended. For every list, sorted or not, and every fragment whose interval is
  within the boundaries of the list, \<open>add(f, sort=False)\<close> appends the fragment at the
  end and leaves the list not guaranteed sorted. No overlap check takes part: the
  existing fragments are not constrained.
\<close>

theorem add_unsorted_appends:
  "(\<forall>b. lbegin self = Some b \<longrightarrow> b \<le> ibegin (interval f)) \<Longrightarrow>
   (\<forall>e. lend self = Some e \<longrightarrow> iend (interval f) \<le> e) \<Longrightarrow>
   add (Fragment f) False self
     = Ok (self\<lparr>fragments := fragments self @ [f], sorted_flag := False\<rparr>)
   \<and> \<not> is_guaranteed_sorted (self\<lparr>fragments := fragments self @ [f], sorted_flag := False\<rparr>)"
  by (auto simp: add_def check_boundaries_def is_guaranteed_sorted_def split: option.splits)

text \<open>The witness appends \<open>[1, 3)\<close> to a list that holds the overlapping \<open>[0, 2)\<close>.\<close>

theorem add_unsorted_appends_witness:
  "lbegin \<lparr>lbegin = Some 0, lend = Some 4, sorted_flag = True,
            fragments = [frag 0 2 ''a'']\<rparr> = Some 0
   \<and> (0::rat) \<le> ibegin (interval (frag 1 3 ''b''))
   \<and> lend \<lparr>lbegin = Some 0, lend = Some 4, sorted_flag = True,
            fragments = [frag 0 2 ''a'']\<rparr> = Some 4
   \<and> iend (interval (frag 1 3 ''b'')) \<le> (4::rat)
   \<and> add (Fragment (frag 1 3 ''b'')) False
        \<lparr>lbegin = Some 0, lend = Some 4, sorted_flag = True, fragments = [frag 0 2 ''a'']\<rparr>
     = Ok \<lparr>lbegin = Some 0, lend = Some 4, sorted_flag = False,
            fragments = [frag 0 2 ''a'', frag 1 3 ''b'']\<rparr>"
proof -
  let ?l = "\<lparr>lbegin = Some 0, lend = Some 4, sorted_flag = True,
             fragments = [frag 0 2 ''a'']\<rparr>"
  have h1: "\<forall>b. lbegin ?l = Some b \<longrightarrow> b \<le> ibegin (interval (frag 1 3 ''b''))" by simp
  have h2: "\<forall>e. lend ?l = Some e \<longrightarrow> iend (interval (frag 1 3 ''b'')) \<le> e" by simp
  from add_unsorted_appends [OF h1 h2] show ?thesis by simp
qed

section \<open>Offsetting an empty list\<close>

text \<open>
  Claim C8. The docstring of \<open>offset\<close> promises a \<open>TypeError\<close> when the offset is not
  a time value. The type is tested by the interval of each fragment, so a list without
  fragments tests nothing: on the list that the constructor returns, \<open>offset\<close> with an
  object of another class returns and raises nothing.
\<close>

theorem offset_empty_list_returns:
  "(init (PTime 0) PNone :: error + string SyncMapFragmentList)
     = Inr \<lparr>lbegin = Some 0, lend = None, sorted_flag = True, fragments = []\<rparr>
   \<and> offset POther
       (\<lparr>lbegin = Some 0, lend = None, sorted_flag = True, fragments = []\<rparr>
          :: string SyncMapFragmentList)
     = Ok \<lparr>lbegin = Some 0, lend = None, sorted_flag = True, fragments = []\<rparr>"
  by (simp add: init_def offset_def)

section \<open>Adding with sorting\<close>

text \<open>
  Claim C1, as stated: for every list whose sorted flag is set, a successful
  \<open>add(f, sort=True)\<close> leaves the fragments in ascending order with allowed adjacent
  pairs. The flag alone does not carry that far. \<open>__setitem__\<close> writes a fragment
  without any check and leaves the flag set; \<open>add\<close> then trusts the flag, and its
  binary search runs on a list that is not in order. The list below is built by the
  public methods only.
\<close>

theorem add_sorted_flag_counterexample:
  "(init (PTime 0) PNone :: error + string SyncMapFragmentList)
     = Inr \<lparr>lbegin = Some 0, lend = None, sorted_flag = True, fragments = []\<rparr>
   \<and> add (Fragment (frag 0 1 ''a'')) True
       \<lparr>lbegin = Some 0, lend = None, sorted_flag = True, fragments = []\<rparr>
     = Ok \<lparr>lbegin = Some 0, lend = None, sorted_flag = True, fragments = [frag 0 1 ''a'']\<rparr>
   \<and> add (Fragment (frag 5 6 ''b'')) True
       \<lparr>lbegin = Some 0, lend = None, sorted_flag = True, fragments = [frag 0 1 ''a'']\<rparr>
     = Ok \<lparr>lbegin = Some 0, lend = None, sorted_flag = True,
            fragments = [frag 0 1 ''a'', frag 5 6 ''b'']\<rparr>
   \<and> setitem 0 (frag 5 8 ''c'')
       \<lparr>lbegin = Some 0, lend = None, sorted_flag = True,
          fragments = [frag 0 1 ''a'', frag 5 6 ''b'']\<rparr>
     = Ok \<lparr>lbegin = Some 0, lend = None, sorted_flag = True,
            fragments = [frag 5 8 ''c'', frag 5 6 ''b'']\<rparr>
   \<and> sorted_flag \<lparr>lbegin = Some 0, lend = None, sorted_flag = True,
            fragments = [frag 5 8 ''c'', frag 5 6 ''b'']\<rparr>
   \<and> add (Fragment (frag 10 11 ''d'')) True
       \<lparr>lbegin = Some 0, lend = None, sorted_flag = True,
          fragments = [frag 5 8 ''c'', frag 5 6 ''b'']\<rparr>
     = Ok \<lparr>lbegin = Some 0, lend = None, sorted_flag = True,
            fragments = [frag 5 8 ''c'', frag 5 6 ''b'', frag 10 11 ''d'']\<rparr>
   \<and> \<not> ascending [frag 5 8 ''c'', frag 5 6 ''b'', frag 10 11 ''d'']
   \<and> \<not> adjacent_allowed [frag 5 8 ''c'', frag 5 6 ''b'', frag 10 11 ''d'']
   \<and> \<not> adjacent_allowed_rev [frag 5 8 ''c'', frag 5 6 ''b'', frag 10 11 ''d'']"
  by (simp add: init_def add_def setitem_def norm_index_def check_boundaries_def
      is_guaranteed_sorted_def relative_position_of_def has_zero_length_def length_iv_def
      ALLOWED_POSITIONS_def insort_right_def bisect_right.simps frag_lt_def frag_key_def
      ascending_def adjacent_allowed_def adjacent_allowed_rev_def)

text \<open>
  Claim C1, amended. For every list whose sorted flag is set, whose fragments are in
  ascending order with allowed adjacent pairs and hold well-formed intervals (begin not
  after end), and every fragment \<open>f\<close> with a well-formed interval such that
  \<open>add(f, sort=True)\<close> returns, afterwards the fragments are in ascending order and, for
  every adjacent pair, the relative position is allowed, whichever of the two fragments
  it is taken from.
\<close>

theorem add_sorted_preserves_order:
  assumes "sorted_flag self"
    and "ascending (fragments self)"
    and "adjacent_allowed (fragments self)"
    and "valid_fragments (fragments self)"
    and "valid_interval (interval f)"
    and "add (Fragment f) True self = Ok self'"
  shows "ascending (fragments self') \<and> adjacent_allowed (fragments self')
           \<and> adjacent_allowed_rev (fragments self')"
proof -
  from assms(6) have chk: "check_overlap (fragments self) f = None"
    and res: "fragments self' = insort_right (fragments self) f"
    by (auto simp: add_def check_boundaries_def split: sum.splits if_splits option.splits)
  from chk have ok: "\<forall>g \<in> set (fragments self). allowed (interval g) (interval f)"
    by (simp add: check_overlap_None)
  have both: "\<forall>g \<in> set (fragments self).
      allowed (interval g) (interval f) \<and> allowed (interval f) (interval g)"
  proof
    fix g assume g: "g \<in> set (fragments self)"
    with assms(4) have "valid_interval (interval g)"
      by (simp add: valid_fragments_def list_all_iff)
    with ok g assms(5) show "allowed (interval g) (interval f) \<and> allowed (interval f) (interval g)"
      by (blast intro: allowed_sym)
  qed
  have asc: "ascending (fragments self')"
    unfolding res using assms(2) by (rule insort_ascending)
  have "successively (\<lambda>a b. allowed (interval a) (interval b)) (fragments self)"
    using assms(3) by (simp add: adjacent_allowed_def allowed_def)
  then have "successively (\<lambda>a b. allowed (interval a) (interval b)) (insort_right (fragments self) f)"
    using both by (intro insort_successively) auto
  then have adj: "adjacent_allowed (fragments self')"
    by (simp add: res adjacent_allowed_def allowed_def)
  have "valid_fragments (fragments self')"
    using assms(4,5) by (auto simp: res valid_fragments_def list_all_iff set_insort)
  with adj have "adjacent_allowed_rev (fragments self')"
    by (simp add: adjacent_allowed_rev_iff)
  with asc adj show ?thesis by simp
qed

lemma add_example:
  "add (Fragment (frag 2 4 ''b'')) True
      \<lparr>lbegin = Some 0, lend = None, sorted_flag = True, fragments = [frag 0 2 ''a'']\<rparr>
   = Ok \<lparr>lbegin = Some 0, lend = None, sorted_flag = True,
          fragments = [frag 0 2 ''a'', frag 2 4 ''b'']\<rparr>"
  by (simp add: add_def check_boundaries_def is_guaranteed_sorted_def
      relative_position_of_def has_zero_length_def length_iv_def ALLOWED_POSITIONS_def
      insort_right_def bisect_right.simps frag_lt_def frag_key_def)

theorem add_sorted_preserves_order_witness:
  "sorted_flag \<lparr>lbegin = Some 0, lend = None, sorted_flag = True,
      fragments = [frag 0 2 ''a'']\<rparr>
   \<and> ascending [frag 0 2 ''a'']
   \<and> adjacent_allowed [frag 0 2 ''a'']
   \<and> valid_fragments [frag 0 2 ''a'']
   \<and> valid_interval (interval (frag 2 4 ''b''))
   \<and> add (Fragment (frag 2 4 ''b'')) True
      \<lparr>lbegin = Some 0, lend = None, sorted_flag = True, fragments = [frag 0 2 ''a'']\<rparr>
     = Ok \<lparr>lbegin = Some 0, lend = None, sorted_flag = True,
          fragments = [frag 0 2 ''a'', frag 2 4 ''b'']\<rparr>
   \<and> ascending [frag 0 2 ''a'', frag 2 4 ''b'']
   \<and> adjacent_allowed [frag 0 2 ''a'', frag 2 4 ''b'']
   \<and> adjacent_allowed_rev [frag 0 2 ''a'', frag 2 4 ''b'']"
proof -
  let ?l = "\<lparr>lbegin = Some 0, lend = None, sorted_flag = True,
      fragments = [frag 0 2 ''a'']\<rparr>"
  have h: "sorted_flag ?l" "ascending (fragments ?l)" "adjacent_allowed (fragments ?l)"
    "valid_fragments (fragments ?l)" "valid_interval (interval (frag 2 4 ''b''))"
    by (simp_all add: ascending_def adjacent_allowed_def valid_fragments_def valid_interval_def)
  from add_sorted_preserves_order [OF h add_example] h add_example show ?thesis by simp
qed

text \<open>
  Claim C2. On a list whose sorted flag is set, with a fragment \<open>f\<close> inside the list
  boundaries, \<open>add(f, sort=True)\<close> raises the overlap \<open>ValueError\<close> when the interval of
  \<open>f\<close> and the interval of some existing fragment share a stretch of positive length,
  and it succeeds when every existing interval lies entirely before or entirely after
  the interval of \<open>f\<close>, a common endpoint included; intervals are well-formed. With
  \<open>[0, 2)\<close> in the list, adding \<open>[2, 4)\<close> succeeds and adding \<open>[1, 3)\<close> fails: that is
  the witness.
\<close>

theorem add_sorted_overlap:
  assumes "sorted_flag self"
    and "\<forall>b. lbegin self = Some b \<longrightarrow> b \<le> ibegin (interval f)"
    and "\<forall>e. lend self = Some e \<longrightarrow> iend (interval f) \<le> e"
  shows "((\<exists>g \<in> set (fragments self).
             max (ibegin (interval g)) (ibegin (interval f))
               < min (iend (interval g)) (iend (interval f)))
          \<longrightarrow> add (Fragment f) True self
                = Raise (ValueError ''interval overlaps another already present interval'') self)
       \<and> (valid_interval (interval f) \<and>
          (\<forall>g \<in> set (fragments self). valid_interval (interval g) \<and>
             (iend (interval f) \<le> ibegin (interval g) \<or> iend (interval g) \<le> ibegin (interval f)))
          \<longrightarrow> add (Fragment f) True self = Ok (self\<lparr>fragments := insort_right (fragments self) f\<rparr>))"
proof -
  have bnd: "check_boundaries self (Fragment f) = Inr f"
    using assms(2,3) by (auto simp: check_boundaries_def split: option.splits)
  show ?thesis
  proof (intro conjI impI)
    assume "\<exists>g \<in> set (fragments self).
        max (ibegin (interval g)) (ibegin (interval f)) < min (iend (interval g)) (iend (interval f))"
    then obtain g where "g \<in> set (fragments self)" "\<not> allowed (interval g) (interval f)"
      using overlap_forbidden by blast
    then have "check_overlap (fragments self) f \<noteq> None"
      by (auto simp: check_overlap_None)
    then obtain e where e: "check_overlap (fragments self) f = Some e" by blast
    from check_overlap_Some [OF e] e bnd assms(1)
    show "add (Fragment f) True self
            = Raise (ValueError ''interval overlaps another already present interval'') self"
      by (simp add: add_def is_guaranteed_sorted_def)
  next
    assume a: "valid_interval (interval f) \<and>
          (\<forall>g \<in> set (fragments self). valid_interval (interval g) \<and>
             (iend (interval f) \<le> ibegin (interval g) \<or> iend (interval g) \<le> ibegin (interval f)))"
    then have "\<forall>g \<in> set (fragments self). allowed (interval g) (interval f)"
      by (auto simp: allowed_iff)
    then have "check_overlap (fragments self) f = None"
      by (simp add: check_overlap_None)
    with bnd assms(1)
    show "add (Fragment f) True self = Ok (self\<lparr>fragments := insort_right (fragments self) f\<rparr>)"
      by (simp add: add_def is_guaranteed_sorted_def)
  qed
qed

theorem add_sorted_overlap_witness:
  "sorted_flag \<lparr>lbegin = Some 0, lend = None, sorted_flag = True,
      fragments = [frag 0 2 ''a'']\<rparr>
   \<and> (0::rat) \<le> ibegin (interval (frag 1 3 ''b''))
   \<and> frag 0 2 ''a'' \<in> set [frag 0 2 ''a'']
   \<and> max (ibegin (interval (frag 0 2 ''a''))) (ibegin (interval (frag 1 3 ''b'')))
        < min (iend (interval (frag 0 2 ''a''))) (iend (interval (frag 1 3 ''b'')))
   \<and> add (Fragment (frag 1 3 ''b'')) True
        \<lparr>lbegin = Some 0, lend = None, sorted_flag = True, fragments = [frag 0 2 ''a'']\<rparr>
      = Raise (ValueError ''interval overlaps another already present interval'')
        \<lparr>lbegin = Some 0, lend = None, sorted_flag = True, fragments = [frag 0 2 ''a'']\<rparr>
   \<and> (0::rat) \<le> ibegin (interval (frag 2 4 ''c''))
   \<and> valid_interval (interval (frag 2 4 ''c''))
   \<and> valid_interval (interval (frag 0 2 ''a''))
   \<and> iend (interval (frag 0 2 ''a'')) \<le> ibegin (interval (frag 2 4 ''c''))
   \<and> add (Fragment (frag 2 4 ''c'')) True
        \<lparr>lbegin = Some 0, lend = None, sorted_flag = True, fragments = [frag 0 2 ''a'']\<rparr>
      = Ok \<lparr>lbegin = Some 0, lend = None, sorted_flag = True,
             fragments = [frag 0 2 ''a'', frag 2 4 ''c'']\<rparr>"
proof -
  let ?l = "\<lparr>lbegin = Some 0, lend = None, sorted_flag = True,
      fragments = [frag 0 2 ''a'']\<rparr>"
  have ins: "insort_right [frag 0 2 ''a''] (frag 2 4 ''c'') = [frag 0 2 ''a'', frag 2 4 ''c'']"
    by (simp add: insort_right_def bisect_right.simps frag_lt_def frag_key_def)
  have "sorted_flag ?l" by simp
  moreover have "\<forall>b. lbegin ?l = Some b \<longrightarrow> b \<le> ibegin (interval (frag 1 3 ''b''))" by simp
  moreover have "\<forall>e. lend ?l = Some e \<longrightarrow> iend (interval (frag 1 3 ''b'')) \<le> e" by simp
  ultimately have r: "add (Fragment (frag 1 3 ''b'')) True ?l
      = Raise (ValueError ''interval overlaps another already present interval'') ?l"
    using add_sorted_overlap [of ?l "frag 1 3 ''b''"] by simp
  have "sorted_flag ?l" by simp
  moreover have "\<forall>b. lbegin ?l = Some b \<longrightarrow> b \<le> ibegin (interval (frag 2 4 ''c''))" by simp
  moreover have "\<forall>e. lend ?l = Some e \<longrightarrow> iend (interval (frag 2 4 ''c'')) \<le> e" by simp
  ultimately have "add (Fragment (frag 2 4 ''c'')) True ?l
      = Ok (?l\<lparr>fragments := insort_right (fragments ?l) (frag 2 4 ''c'')\<rparr>)"
    using add_sorted_overlap [of ?l "frag 2 4 ''c''"] by (simp add: valid_interval_def)
  with r ins show ?thesis by (simp add: valid_interval_def)
qed

section \<open>The list after an exception\<close>

text \<open>
  Claim C3, as stated: every error is raised before any mutation, also by \<open>sort\<close> after
  an unchecked append. \<open>sort\<close> stores the sorted list first and tests the adjacent pairs
  afterwards, so when it raises, the fragments have been reordered.
\<close>

theorem sort_raise_counterexample:
  "add (Fragment (frag 1 3 ''b'')) False
      \<lparr>lbegin = Some 0, lend = None, sorted_flag = True, fragments = []\<rparr>
     = Ok \<lparr>lbegin = Some 0, lend = None, sorted_flag = False, fragments = [frag 1 3 ''b'']\<rparr>
   \<and> add (Fragment (frag 0 2 ''a'')) False
      \<lparr>lbegin = Some 0, lend = None, sorted_flag = False, fragments = [frag 1 3 ''b'']\<rparr>
     = Ok \<lparr>lbegin = Some 0, lend = None, sorted_flag = False,
            fragments = [frag 1 3 ''b'', frag 0 2 ''a'']\<rparr>
   \<and> sort_op \<lparr>lbegin = Some 0, lend = None, sorted_flag = False,
            fragments = [frag 1 3 ''b'', frag 0 2 ''a'']\<rparr>
     = Raise (ValueError ''The list contains two time intervals overlapping in a forbidden way'')
         \<lparr>lbegin = Some 0, lend = None, sorted_flag = False,
            fragments = [frag 0 2 ''a'', frag 1 3 ''b'']\<rparr>
   \<and> [frag 0 2 ''a'', frag 1 3 ''b''] \<noteq> [frag 1 3 ''b'', frag 0 2 ''a'']"
  by (simp add: add_def check_boundaries_def sort_op_def is_guaranteed_sorted_def Let_def
      frag_key_def relative_position_of_def has_zero_length_def length_iv_def
      ALLOWED_POSITIONS_def)

text \<open>
  Claim C3, amended. \<open>add\<close> (with either value of \<open>sort\<close>), \<open>offset\<close> and \<open>move_end\<close>
  raise before any mutation: after the failed call the list is exactly as before. When
  \<open>sort\<close> raises, \<open>begin\<close>, \<open>end\<close> and the sorted flag (which is false) are as before,
  and the fragments are the stable sort of the previous sequence.
\<close>

theorem raise_leaves_state:
  "(add fragment sort_arg self = Raise e self' \<longrightarrow> self' = self)
   \<and> (offset off self = Raise e self' \<longrightarrow> self' = self)
   \<and> (move_end ver index v self = Raise e self' \<longrightarrow> self' = self)
   \<and> (sort_op self = Raise e self' \<longrightarrow>
        lbegin self' = lbegin self \<and> lend self' = lend self
        \<and> sorted_flag self' = sorted_flag self \<and> \<not> sorted_flag self'
        \<and> fragments self' = sort_key frag_key (fragments self))"
  using add_raise [of fragment sort_arg self e self'] offset_raise [of off self e self']
    move_end_raise [of ver index v self e self'] sort_raise [of self e self']
  by auto

theorem raise_leaves_state_witness:
  "add (Fragment (frag 1 3 ''b'')) False
      \<lparr>lbegin = Some 0, lend = Some 2, sorted_flag = True, fragments = []\<rparr>
     = Raise (ValueError ''interval.end is after self.end'')
         \<lparr>lbegin = Some 0, lend = Some 2, sorted_flag = True, fragments = []\<rparr>
   \<and> offset POther
      \<lparr>lbegin = Some 0, lend = Some 2, sorted_flag = True, fragments = [frag 0 1 ''a'']\<rparr>
     = Raise (TypeError ''offset is not an instance of TimeValue'')
         \<lparr>lbegin = Some 0, lend = Some 2, sorted_flag = True, fragments = [frag 0 1 ''a'']\<rparr>
   \<and> move_end Python3 0 (1 / 2)
      \<lparr>lbegin = Some 0, lend = None, sorted_flag = True,
         fragments = [frag 0 1 ''a'', frag 1 2 ''b'']\<rparr>
     = Raise (TypeError ''unorderable types'')
         \<lparr>lbegin = Some 0, lend = None, sorted_flag = True,
            fragments = [frag 0 1 ''a'', frag 1 2 ''b'']\<rparr>
   \<and> sort_op \<lparr>lbegin = Some 0, lend = None, sorted_flag = False,
            fragments = [frag 1 3 ''b'', frag 0 2 ''a'']\<rparr>
     = Raise (ValueError ''The list contains two time intervals overlapping in a forbidden way'')
         \<lparr>lbegin = Some 0, lend = None, sorted_flag = False,
            fragments = [frag 0 2 ''a'', frag 1 3 ''b'']\<rparr>
   \<and> [frag 0 2 ''a'', frag 1 3 ''b''] = sort_key frag_key [frag 1 3 ''b'', frag 0 2 ''a'']"
proof -
  let ?la = "\<lparr>lbegin = Some 0, lend = Some 2, sorted_flag = True,
      fragments = [] :: string SyncMapFragment list\<rparr>"
  let ?lo = "\<lparr>lbegin = Some 0, lend = Some 2, sorted_flag = True,
      fragments = [frag 0 1 ''a'']\<rparr>"
  let ?lm = "\<lparr>lbegin = Some 0, lend = None, sorted_flag = True,
      fragments = [frag 0 1 ''a'', frag 1 2 ''b'']\<rparr>"
  let ?ls = "\<lparr>lbegin = Some 0, lend = None, sorted_flag = False,
      fragments = [frag 1 3 ''b'', frag 0 2 ''a'']\<rparr>"
  obtain ra where a: "add (Fragment (frag 1 3 ''b'')) False ?la
      = Raise (ValueError ''interval.end is after self.end'') ra"
    by (simp add: add_def check_boundaries_def)
  obtain ro where o: "offset POther ?lo
      = Raise (TypeError ''offset is not an instance of TimeValue'') ro"
    by (simp add: offset_def offset_iv_def)
  obtain rm where m: "move_end Python3 0 (1 / 2) ?lm = Raise (TypeError ''unorderable types'') rm"
    by (simp add: move_end_def)
  obtain rs where s: "sort_op ?ls
      = Raise (ValueError ''The list contains two time intervals overlapping in a forbidden way'') rs"
    by (simp add: sort_op_def is_guaranteed_sorted_def Let_def frag_key_def
        relative_position_of_def has_zero_length_def length_iv_def ALLOWED_POSITIONS_def)
  from raise_leaves_state [where fragment = "Fragment (frag 1 3 ''b'')" and sort_arg = False
      and self = ?la and self' = ra] a
  have "ra = ?la" by simp
  moreover from raise_leaves_state [where off = POther and self = ?lo and self' = ro] o
  have "ro = ?lo" by simp
  moreover from raise_leaves_state [where ver = Python3 and index = 0 and v = "1 / 2" and self = ?lm
      and self' = rm] m
  have "rm = ?lm" by simp
  moreover from raise_leaves_state [where self = ?ls and self' = rs] s
  have "rs = ?ls\<lparr>fragments := sort_key frag_key (fragments ?ls)\<rparr>" by simp
  moreover have "sort_key frag_key [frag 1 3 ''b'', frag 0 2 ''a'']
      = [frag 0 2 ''a'', frag 1 3 ''b'']"
    by (simp add: frag_key_def)
  ultimately show ?thesis using a o m s by simp
qed

section \<open>Moving the end of a fragment\<close>

text \<open>
  Claim C5. \<open>move_end(i, v)\<close> is to return silently, with the list unchanged, when
  the index pair is out of range, \<open>v\<close> is outside the boundaries of the list or after
  the end of the next fragment, or the two fragments are not adjacent, and otherwise to
  write \<open>v\<close> to the end of fragment \<open>i\<close> and to the begin of fragment \<open>i + 1\<close>. The
  method compares \<open>v\<close> with \<open>self.begin\<close> and \<open>self.end\<close> first, without the test for
  \<open>None\<close> that \<open>_check_boundaries\<close> makes. On a list built with the default
  \<open>end=None\<close>, holding the adjacent fragments \<open>[0, 1)\<close> and \<open>[1, 2)\<close>, the call
  \<open>move_end(0, 0.5)\<close> raises \<open>TypeError\<close> under Python 3 and changes nothing under
  Python 2; under Python 3 the call with the index \<open>7\<close>, out of range, raises too.
\<close>

theorem move_end_unset_end:
  "(init (PTime 0) PNone :: error + string SyncMapFragmentList)
     = Inr \<lparr>lbegin = Some 0, lend = None, sorted_flag = True, fragments = []\<rparr>
   \<and> add (Fragment (frag 0 1 ''a'')) True
       \<lparr>lbegin = Some 0, lend = None, sorted_flag = True, fragments = []\<rparr>
     = Ok \<lparr>lbegin = Some 0, lend = None, sorted_flag = True, fragments = [frag 0 1 ''a'']\<rparr>
   \<and> add (Fragment (frag 1 2 ''b'')) True
       \<lparr>lbegin = Some 0, lend = None, sorted_flag = True, fragments = [frag 0 1 ''a'']\<rparr>
     = Ok \<lparr>lbegin = Some 0, lend = None, sorted_flag = True,
            fragments = [frag 0 1 ''a'', frag 1 2 ''b'']\<rparr>
   \<and> is_adjacent_before (interval (frag 0 1 ''a'')) (interval (frag 1 2 ''b''))
   \<and> (0::rat) \<le> 1 / 2 \<and> (1 / 2 :: rat) \<le> iend (interval (frag 1 2 ''b''))
   \<and> move_end Python3 0 (1 / 2)
       \<lparr>lbegin = Some 0, lend = None, sorted_flag = True,
          fragments = [frag 0 1 ''a'', frag 1 2 ''b'']\<rparr>
     = Raise (TypeError ''unorderable types'')
         \<lparr>lbegin = Some 0, lend = None, sorted_flag = True,
            fragments = [frag 0 1 ''a'', frag 1 2 ''b'']\<rparr>
   \<and> move_end Python2 0 (1 / 2)
       \<lparr>lbegin = Some 0, lend = None, sorted_flag = True,
          fragments = [frag 0 1 ''a'', frag 1 2 ''b'']\<rparr>
     = Ok \<lparr>lbegin = Some 0, lend = None, sorted_flag = True,
            fragments = [frag 0 1 ''a'', frag 1 2 ''b'']\<rparr>
   \<and> move_end Python3 7 (1 / 2)
       \<lparr>lbegin = Some 0, lend = None, sorted_flag = True,
          fragments = [frag 0 1 ''a'', frag 1 2 ''b'']\<rparr>
     = Raise (TypeError ''unorderable types'')
         \<lparr>lbegin = Some 0, lend = None, sorted_flag = True,
            fragments = [frag 0 1 ''a'', frag 1 2 ''b'']\<rparr>"
  by (simp add: init_def add_def check_boundaries_def
      is_guaranteed_sorted_def relative_position_of_def has_zero_length_def length_iv_def
      ALLOWED_POSITIONS_def insort_right_def bisect_right.simps frag_lt_def frag_key_def
      move_end_def is_adjacent_before_def)

text \<open>
  With both boundaries of the list set, \<open>move_end\<close> does what the claim says, under
  either Python: it returns the list unchanged when the index pair is out of range, the
  value is outside the boundaries of the list or after the end of the next fragment, or
  the two fragments are not adjacent; otherwise it writes the value to the end of the
  fragment and to the begin of the next one, and nothing else changes.
\<close>

theorem move_end_spec:
  fixes self :: "'p SyncMapFragmentList" and index :: int and v b e :: TimeValue
  defines "current_fragment \<equiv> fragments self ! nat index"
    and "next_fragment \<equiv> fragments self ! nat (index + 1)"
  defines "unmet \<equiv> (index < 0 \<or> len self \<le> index + 1 \<or> v < b \<or> e < v
      \<or> iend (interval next_fragment) < v
      \<or> \<not> is_adjacent_before (interval current_fragment) (interval next_fragment))"
  assumes "lbegin self = Some b" and "lend self = Some e"
  shows "(unmet \<longrightarrow> move_end ver index v self = Ok self)
    \<and> (\<not> unmet \<longrightarrow>
         (\<exists>self'. move_end ver index v self = Ok self'
            \<and> lbegin self' = lbegin self \<and> lend self' = lend self
            \<and> sorted_flag self' = sorted_flag self
            \<and> length (fragments self') = length (fragments self)
            \<and> fragments self' ! nat index
                 = current_fragment\<lparr>interval := (interval current_fragment)\<lparr>iend := v\<rparr>\<rparr>
            \<and> fragments self' ! nat (index + 1)
                 = next_fragment\<lparr>interval := (interval next_fragment)\<lparr>ibegin := v\<rparr>\<rparr>
            \<and> (\<forall>k < length (fragments self). k \<noteq> nat index \<and> k \<noteq> nat (index + 1)
                  \<longrightarrow> fragments self' ! k = fragments self ! k)))"
proof (intro conjI impI)
  assume unmet
  then show "move_end ver index v self = Ok self"
    using assms(4,5) unfolding unmet_def current_fragment_def next_fragment_def
    by (auto simp: move_end_def Let_def nat_add_distrib)
next
  assume "\<not> unmet"
  then have rng: "0 \<le> index" "index + 1 < len self" "b \<le> v" "v \<le> e"
    and nxt: "v \<le> iend (interval next_fragment)"
      "is_adjacent_before (interval current_fragment) (interval next_fragment)"
    unfolding unmet_def by auto
  have idx: "nat (index + 1) = nat index + 1" "nat index + 1 < length (fragments self)"
    using rng(1,2) by (auto simp: len_def nat_add_distrib)
  let ?fs = "(fragments self)
      [nat index := current_fragment\<lparr>interval := (interval current_fragment)\<lparr>iend := v\<rparr>\<rparr>,
       nat index + 1 := next_fragment\<lparr>interval := (interval next_fragment)\<lparr>ibegin := v\<rparr>\<rparr>]"
  have "move_end ver index v self = Ok (self\<lparr>fragments := ?fs\<rparr>)"
    using assms(4,5) rng nxt idx unfolding current_fragment_def next_fragment_def
    by (simp add: move_end_def Let_def not_less [symmetric])
  moreover have "?fs ! nat index
      = current_fragment\<lparr>interval := (interval current_fragment)\<lparr>iend := v\<rparr>\<rparr>"
    using idx by simp
  moreover have "?fs ! (nat index + 1)
      = next_fragment\<lparr>interval := (interval next_fragment)\<lparr>ibegin := v\<rparr>\<rparr>"
    using idx by simp
  ultimately show "\<exists>self'. move_end ver index v self = Ok self'
            \<and> lbegin self' = lbegin self \<and> lend self' = lend self
            \<and> sorted_flag self' = sorted_flag self
            \<and> length (fragments self') = length (fragments self)
            \<and> fragments self' ! nat index
                 = current_fragment\<lparr>interval := (interval current_fragment)\<lparr>iend := v\<rparr>\<rparr>
            \<and> fragments self' ! nat (index + 1)
                 = next_fragment\<lparr>interval := (interval next_fragment)\<lparr>ibegin := v\<rparr>\<rparr>
            \<and> (\<forall>k < length (fragments self). k \<noteq> nat index \<and> k \<noteq> nat (index + 1)
                  \<longrightarrow> fragments self' ! k = fragments self ! k)"
    using idx by (intro exI [of _ "self\<lparr>fragments := ?fs\<rparr>"]) simp
qed

theorem move_end_spec_witness:
  "lbegin \<lparr>lbegin = Some 0, lend = Some 2, sorted_flag = True,
      fragments = [frag 0 1 ''a'', frag 1 2 ''b'']\<rparr> = Some 0
   \<and> lend \<lparr>lbegin = Some 0, lend = Some 2, sorted_flag = True,
      fragments = [frag 0 1 ''a'', frag 1 2 ''b'']\<rparr> = Some 2
   \<and> (2::rat) < 3
   \<and> move_end Python3 0 3
       \<lparr>lbegin = Some 0, lend = Some 2, sorted_flag = True,
          fragments = [frag 0 1 ''a'', frag 1 2 ''b'']\<rparr>
     = Ok \<lparr>lbegin = Some 0, lend = Some 2, sorted_flag = True,
            fragments = [frag 0 1 ''a'', frag 1 2 ''b'']\<rparr>
   \<and> (0::rat) \<le> 1 / 2 \<and> (1 / 2 :: rat) \<le> 2
   \<and> (1 / 2 :: rat) \<le> iend (interval (frag 1 2 ''b''))
   \<and> is_adjacent_before (interval (frag 0 1 ''a'')) (interval (frag 1 2 ''b''))
   \<and> (\<exists>self'. move_end Python3 0 (1 / 2)
          \<lparr>lbegin = Some 0, lend = Some 2, sorted_flag = True,
             fragments = [frag 0 1 ''a'', frag 1 2 ''b'']\<rparr> = Ok self'
        \<and> lbegin self' = Some 0 \<and> lend self' = Some 2 \<and> sorted_flag self'
        \<and> length (fragments self') = 2
        \<and> fragments self' ! 0 = frag 0 (1 / 2) ''a''
        \<and> fragments self' ! 1 = frag (1 / 2) 2 ''b'')"
proof -
  let ?l = "\<lparr>lbegin = Some 0, lend = Some 2, sorted_flag = True,
      fragments = [frag 0 1 ''a'', frag 1 2 ''b'']\<rparr>"
  have b: "lbegin ?l = Some 0" and e: "lend ?l = Some 2" by simp_all
  have adj: "is_adjacent_before (interval (frag 0 1 ''a'')) (interval (frag 1 2 ''b''))"
    by (simp add: is_adjacent_before_def)
  have noop: "move_end Python3 0 3 ?l = Ok ?l"
    using move_end_spec [OF b e, of 0 3 Python3] by simp
  have moved: "\<exists>self'. move_end Python3 0 (1 / 2) ?l = Ok self'
        \<and> lbegin self' = Some 0 \<and> lend self' = Some 2 \<and> sorted_flag self'
        \<and> length (fragments self') = 2
        \<and> fragments self' ! 0 = frag 0 (1 / 2) ''a''
        \<and> fragments self' ! 1 = frag (1 / 2) 2 ''b''"
    using move_end_spec [OF b e, of 0 "1 / 2" Python3] adj
    by (auto simp: len_def numeral_2_eq_2)
  from noop moved adj show ?thesis by simp
qed

section \<open>Repairing zero-length fragments\<close>

lemmas fix_eval = fix_zero_length_intervals_def fix_loop.simps fix_chain_def scan_chain.simps
  find_donor_def getitem_def norm_index_def len_def shrink_def enlarge_def
  has_zero_length_def length_iv_def Let_def

text \<open>
  Claim C4. With offset \<open>0.001\<close> over the full index range, on a list with end \<open>2\<close>,
  the fragments \<open>[0,0), [0,2)\<close> become \<open>[0,0.001), [0.001,2)\<close>: the donor \<open>[0,2)\<close>
  shrinks by \<open>0.001\<close>. The fragments \<open>[0,0), [0,0), [0,2)\<close> become
  \<open>[0,0.001), [0.001,0.002), [0.002,2)\<close>. The boundaries of the list are set, so the
  Python version plays no part.
\<close>

theorem fix_zero_length_examples:
  "fix_zero_length_intervals ver move_end_at (1 / 1000) (Some 0) (Some 2)
      \<lparr>lbegin = Some 0, lend = Some 2, sorted_flag = True,
         fragments = [frag 0 0 ''a'', frag 0 2 ''b'']\<rparr>
     = Ok \<lparr>lbegin = Some 0, lend = Some 2, sorted_flag = True,
            fragments = [frag 0 (1 / 1000) ''a'', frag (1 / 1000) 2 ''b'']\<rparr>
   \<and> fix_zero_length_intervals ver move_end_at (1 / 1000) (Some 0) (Some 3)
      \<lparr>lbegin = Some 0, lend = Some 2, sorted_flag = True,
         fragments = [frag 0 0 ''a'', frag 0 0 ''b'', frag 0 2 ''c'']\<rparr>
     = Ok \<lparr>lbegin = Some 0, lend = Some 2, sorted_flag = True,
            fragments = [frag 0 (1 / 1000) ''a'', frag (1 / 1000) (2 / 1000) ''b'',
              frag (2 / 1000) 2 ''c'']\<rparr>"
  by (simp add: fix_eval move_end_at_def)

text \<open>
  Claim C10. An explicit \<open>max_index = 0\<close> is replaced by the length of the list, as
  \<open>None\<close> is, and an explicit \<open>min_index = 0\<close> stands for the default \<open>0\<close>: the call
  with \<open>max_index = 0\<close> is the call with \<open>max_index = len(self)\<close>, whatever the list,
  the offset and the interval operations are. It scans the whole list and may mutate it:
  on \<open>[0,0), [0,2)\<close> the donor at index \<open>1\<close> is shrunk.
\<close>

theorem fix_zero_length_max_index_zero:
  "fix_zero_length_intervals ver mv off min_index (Some 0) self
     = fix_zero_length_intervals ver mv off min_index (Some (len self)) self
   \<and> fix_zero_length_intervals ver mv off min_index (Some 0) self
     = fix_zero_length_intervals ver mv off min_index None self
   \<and> fix_zero_length_intervals ver mv off (Some 0) max_index self
     = fix_zero_length_intervals ver mv off None max_index self
   \<and> (\<exists>self'. fix_zero_length_intervals ver mv (1 / 1000) None (Some 0)
         \<lparr>lbegin = Some 0, lend = Some 2, sorted_flag = True,
            fragments = [frag 0 0 ''a'', frag 0 2 ''b'']\<rparr> = Ok self'
       \<and> fragments self' ! 1 = frag (1 / 1000) 2 ''b'')"
  by (simp add: fix_eval)

end
